theory Spec2Isabelle
  imports Complex_Main
begin

section \<open>Strings: the regular expressions and number formatting of the source\<close>

text \<open>
  JavaScript strings are modelled as \<^typ>\<open>string\<close>. The three regular expressions of the
  source are anchored at the start of the string and are used with \<open>replace(re, "")\<close>, so
  each of them either removes one prefix or leaves the string as it is.
\<close>

definition drop_prefix :: "string \<Rightarrow> string \<Rightarrow> string option" where
  "drop_prefix p s = (if take (length p) s = p then Some (drop (length p) s) else None)"

text \<open>The class \<open>\w\<close> of a JavaScript regular expression without the unicode flag: \<open>[A-Za-z0-9_]\<close>.\<close>

definition is_word_char :: "char \<Rightarrow> bool" where
  "is_word_char c =
     (let n = (of_char c :: nat)
      in (48 \<le> n \<and> n \<le> 57) \<or> (65 \<le> n \<and> n \<le> 90) \<or> n = 95 \<or> (97 \<le> n \<and> n \<le> 122))"

text \<open>
  \<open>frame.replace(/^data:image\/\w+;base64,/, "")\<close> of \<open>handleDownloadZip\<close>. The greedy \<open>\w+\<close>
  takes the longest run of word characters; a shorter run is followed by a word character,
  never by \<open>;\<close>, so backtracking finds no other match.
\<close>

definition strip_data_url_prefix :: "string \<Rightarrow> string" where
  "strip_data_url_prefix frame =
     (case drop_prefix ''data:image/'' frame of
        None \<Rightarrow> frame
      | Some rest \<Rightarrow>
          if takeWhile is_word_char rest = [] then frame
          else (case drop_prefix '';base64,'' (dropWhile is_word_char rest) of
                  None \<Rightarrow> frame
                | Some payload \<Rightarrow> payload))"

text \<open>
  \<open>base64Image.replace(/^data:image\/(png|jpeg|jpg|webp);base64,/, "")\<close> of the service:
  the alternatives are tried in the order they are written.
\<close>

fun strip_alternatives :: "string list \<Rightarrow> string \<Rightarrow> string option" where
  "strip_alternatives [] rest = None"
| "strip_alternatives (alt # alts) rest =
     (case drop_prefix (alt @ '';base64,'') rest of
        Some payload \<Rightarrow> Some payload
      | None \<Rightarrow> strip_alternatives alts rest)"

definition cleanBase64 :: "string \<Rightarrow> string" where
  "cleanBase64 base64Image =
     (case drop_prefix ''data:image/'' base64Image of
        None \<Rightarrow> base64Image
      | Some rest \<Rightarrow>
          (case strip_alternatives [''png'', ''jpeg'', ''jpg'', ''webp''] rest of
             None \<Rightarrow> base64Image
           | Some payload \<Rightarrow> payload))"

text \<open>\<open>String(n)\<close> for a non-negative integer, and \<open>padStart\<close>.\<close>

definition digit_char :: "nat \<Rightarrow> char" where
  "digit_char d = ''0123456789'' ! d"

function string_of_nat :: "nat \<Rightarrow> string" where
  "string_of_nat n =
     (if n < 10 then [digit_char n] else string_of_nat (n div 10) @ [digit_char (n mod 10)])"
  by pat_completeness auto
termination
  by (relation "measure id") auto

declare string_of_nat.simps [simp del]

text \<open>\<open>String(n)\<close> for any whole number, as a template literal prints \<open>Date.now()\<close>.\<close>

definition string_of_int :: "int \<Rightarrow> string" where
  "string_of_int i =
     (if i < 0 then CHR ''-'' # string_of_nat (nat (- i)) else string_of_nat (nat i))"

definition padStart :: "nat \<Rightarrow> char \<Rightarrow> string \<Rightarrow> string" where
  "padStart n c s = replicate (n - length s) c @ s"

section \<open>The image service (geminiService)\<close>

text \<open>
  Every way a promise of the source can reject. \<open>ApiFailure\<close> is a rejection of the
  remote call itself, \<open>TypeError\<close> a property read on \<open>undefined\<close>, \<open>NoImage\<close> the
  \<open>Error\<close> thrown by the service functions with its message, \<open>LoadFailure\<close> the
  \<open>onerror\<close> of an image element, \<open>KeyFailure\<close> a rejection of the key dialogue,
  \<open>ArchiveFailure\<close> an error of the archive library.
\<close>

datatype failure = ApiFailure | TypeError | NoImage string | LoadFailure | KeyFailure | ArchiveFailure

text \<open>
  The response of \<open>generateContent\<close>, as far as the source reads it. An optional
  property that is missing is \<open>None\<close>.
\<close>

record InlineData =
  mimeType :: "string option"
  data :: "string option"

record Part =
  partText :: "string option"
  inlineData :: "InlineData option"

record Content =
  parts :: "Part list option"

record Candidate =
  content :: "Content option"

record Response =
  candidates :: "Candidate list option"

text \<open>
  The request. The prompt text of the source is a fixed template filled with the frame
  index, the number of frames, the description and the direction (and a percentage
  computed from the first two), so the prompt is represented by these parameters.
\<close>

datatype prompt = MotionPrompt nat nat string string | UpscalePrompt

datatype config = Temperature rat | ImageConfig string string

record Request =
  req_model :: string
  req_prompt :: prompt
  req_mimeType :: string
  req_data :: string
  req_config :: config

type_synonym service = "Request \<Rightarrow> failure + Response"

text \<open>
  The loop over the parts of the first candidate: the first part with a non-empty
  \<open>inlineData.data\<close> gives the URL; without one the URL stays the empty string.
\<close>

fun image_url :: "Part list \<Rightarrow> string" where
  "image_url [] = []"
| "image_url (p # ps) =
     (case inlineData p of
        None \<Rightarrow> image_url ps
      | Some idata \<Rightarrow>
          (case data idata of
             None \<Rightarrow> image_url ps
           | Some d \<Rightarrow> if d \<noteq> [] then ''data:image/png;base64,'' @ d else image_url ps))"

text \<open>
  \<open>response.candidates && response.candidates[0].content.parts\<close> followed by the loop and
  the check of the URL. A missing \<open>candidates\<close> or \<open>parts\<close> skips the loop; an empty
  \<open>candidates\<close> array or a candidate without \<open>content\<close> is a property read on
  \<open>undefined\<close>, which throws.
\<close>

definition extract_image :: "string \<Rightarrow> Response \<Rightarrow> failure + string" where
  "extract_image msg response =
     (case candidates response of
        None \<Rightarrow> Inl (NoImage msg)
      | Some [] \<Rightarrow> Inl TypeError
      | Some (c # cs) \<Rightarrow>
          (case content c of
             None \<Rightarrow> Inl TypeError
           | Some ct \<Rightarrow>
               (case parts ct of
                  None \<Rightarrow> Inl (NoImage msg)
                | Some ps \<Rightarrow>
                    if image_url ps = [] then Inl (NoImage msg) else Inr (image_url ps))))"

text \<open>The \<open>catch\<close> of both functions logs and throws the same error again.\<close>

definition motion_request :: "string \<Rightarrow> nat \<Rightarrow> nat \<Rightarrow> string \<Rightarrow> string \<Rightarrow> Request" where
  "motion_request base64Image frameIndex totalFrames description direction =
     \<lparr> req_model = ''gemini-2.5-flash-image'',
       req_prompt = MotionPrompt frameIndex totalFrames description direction,
       req_mimeType = ''image/jpeg'',
       req_data = cleanBase64 base64Image,
       req_config = Temperature (4 / 10) \<rparr>"

definition generateMotionFrame ::
  "service \<Rightarrow> string \<Rightarrow> nat \<Rightarrow> nat \<Rightarrow> string \<Rightarrow> string \<Rightarrow> failure + string" where
  "generateMotionFrame generateContent base64Image frameIndex totalFrames description direction =
     (case generateContent
             (motion_request base64Image frameIndex totalFrames description direction) of
        Inl e \<Rightarrow> Inl e
      | Inr response \<Rightarrow> extract_image ''No image data returned from Gemini.'' response)"

definition upscale_request :: "string \<Rightarrow> string \<Rightarrow> Request" where
  "upscale_request base64Image aspectRatio =
     \<lparr> req_model = ''gemini-3-pro-image-preview'',
       req_prompt = UpscalePrompt,
       req_mimeType = ''image/jpeg'',
       req_data = cleanBase64 base64Image,
       req_config = ImageConfig ''2K'' aspectRatio \<rparr>"

definition upscaleFrame :: "service \<Rightarrow> string \<Rightarrow> string \<Rightarrow> failure + string" where
  "upscaleFrame generateContent base64Image aspectRatio =
     (case generateContent (upscale_request base64Image aspectRatio) of
        Inl e \<Rightarrow> Inl e
      | Inr response \<Rightarrow> extract_image ''No upscaled image returned from Gemini.'' response)"

text \<open>
  A response carries image data when some part of some candidate has a non-empty
  \<open>inlineData.data\<close>.
\<close>

definition part_has_data :: "Part \<Rightarrow> bool" where
  "part_has_data p =
     (case inlineData p of
        None \<Rightarrow> False
      | Some idata \<Rightarrow> (case data idata of None \<Rightarrow> False | Some d \<Rightarrow> d \<noteq> []))"

definition candidate_has_data :: "Candidate \<Rightarrow> bool" where
  "candidate_has_data c =
     (case content c of
        None \<Rightarrow> False
      | Some ct \<Rightarrow> (case parts ct of None \<Rightarrow> False | Some ps \<Rightarrow> list_ex part_has_data ps))"

definition contains_image_data :: "Response \<Rightarrow> bool" where
  "contains_image_data response =
     (case candidates response of None \<Rightarrow> False | Some cs \<Rightarrow> list_ex candidate_has_data cs)"

section \<open>Application state (App.tsx)\<close>

definition TOTAL_FRAMES :: nat where
  "TOTAL_FRAMES = 10"

text \<open>\<open>GenerationStatus\<close>: the optional field \<open>error\<close> is \<open>None\<close> when the object has no such key.\<close>

record GenerationStatus =
  isGenerating :: bool
  completedFrames :: nat
  totalFrames :: nat
  error :: "string option"

text \<open>What a download link hands to the browser: the file name and what the file was built from.\<close>

datatype artifact =
    ZipArchive "(string \<times> string) list"
  | Video string "string list"

text \<open>
  The \<open>useState\<close> cells of \<open>App\<close>, together with the two effects of the handlers that leave
  the component: the messages shown with \<open>alert\<close> and the files offered for download, both
  in the order they happened.
\<close>

record app_state =
  originalImage :: "string option"
  generatedFrames :: "string list"
  promptDescription :: string
  selectedDirection :: string
  status :: GenerationStatus
  isDownloading :: bool
  isUpscaling :: bool
  alerts :: "string list"
  downloads :: "(string \<times> artifact) list"

definition initial_app :: app_state where
  "initial_app =
     \<lparr> originalImage = None, generatedFrames = [],
       promptDescription = ''The main subject is moving'', selectedDirection = ''Right'',
       status = \<lparr> isGenerating = False, completedFrames = 0, totalFrames = TOTAL_FRAMES,
                  error = None \<rparr>,
       isDownloading = False, isUpscaling = False, alerts = [], downloads = [] \<rparr>"

definition handleImageSelect :: "string \<Rightarrow> app_state \<Rightarrow> app_state" where
  "handleImageSelect base64 s =
     s \<lparr> originalImage := Some base64,
         generatedFrames := [],
         status := \<lparr> isGenerating = False, completedFrames = 0, totalFrames = TOTAL_FRAMES,
                     error = None \<rparr> \<rparr>"

section \<open>Batches of concurrent requests\<close>

text \<open>
  Both orchestrators launch one promise per request and wait for them with
  \<open>Promise.all\<close>. JavaScript runs the callbacks one at a time, so a run of a batch is the
  list of request indices in the order in which the requests complete.

  \<^item> A request that succeeds runs its \<open>then\<close> callback, which counts one more completed
    frame, and fulfils its promise with the frame.
  \<^item> The first request that fails rejects \<open>Promise.all\<close>, and the \<open>catch\<close> of the handler
    runs (\<open>on_reject\<close>). Later failures change nothing; later successes still count.
  \<^item> A completion event for a request that was not launched, or that has settled
    already, does not exist; the run ignores it.
\<close>

record batch_run =
  app :: app_state
  fulfilled :: "nat \<Rightarrow> string option"
  settled :: "nat list"
  rejected :: bool

definition frame_completed :: "app_state \<Rightarrow> app_state" where
  "frame_completed s =
     s \<lparr> status := (status s) \<lparr> completedFrames := completedFrames (status s) + 1 \<rparr> \<rparr>"

definition settle ::
  "nat list \<Rightarrow> (nat \<Rightarrow> failure + string) \<Rightarrow> (app_state \<Rightarrow> app_state) \<Rightarrow> nat \<Rightarrow> batch_run \<Rightarrow> batch_run"
  where
  "settle launched outcome on_reject i r =
     (if i \<notin> set launched \<or> i \<in> set (settled r) then r
      else (case outcome i of
              Inr frame \<Rightarrow>
                r \<lparr> app := frame_completed (app r),
                    fulfilled := (fulfilled r)(i \<mapsto> frame),
                    settled := i # settled r \<rparr>
            | Inl e \<Rightarrow>
                if rejected r then r \<lparr> settled := i # settled r \<rparr>
                else r \<lparr> app := on_reject (app r), settled := i # settled r, rejected := True \<rparr>))"

definition run_batch ::
  "nat list \<Rightarrow> (nat \<Rightarrow> failure + string) \<Rightarrow> (app_state \<Rightarrow> app_state) \<Rightarrow> nat list \<Rightarrow> app_state \<Rightarrow> batch_run"
  where
  "run_batch launched outcome on_reject completion s =
     fold (settle launched outcome on_reject) completion
       \<lparr> app = s, fulfilled = Map.empty, settled = [], rejected = False \<rparr>"

text \<open>
  The value of \<open>Promise.all\<close>, once every promise is fulfilled: the results in the order of
  the array of promises, whatever the order of completion. Each result is the object
  \<open>{ index, frame }\<close>, here a pair.
\<close>

definition promise_all :: "nat list \<Rightarrow> batch_run \<Rightarrow> (nat \<times> string) list option" where
  "promise_all launched r =
     (if rejected r then None
      else those (map (\<lambda>i. map_option (Pair i) (fulfilled r i)) launched))"

text \<open>\<open>results.sort((a, b) => a.index - b.index).map(item => item.frame)\<close>; the sort is stable.\<close>

definition sorted_frames :: "(nat \<times> string) list \<Rightarrow> string list" where
  "sorted_frames results = map snd (sort_key fst results)"

section \<open>Frame generation (handleGenerate)\<close>

definition generate_catch :: "app_state \<Rightarrow> app_state" where
  "generate_catch s =
     s \<lparr> status := (status s)
           \<lparr> isGenerating := False,
             error := Some ''Failed to generate frames. Please try again or use a different image.'' \<rparr> \<rparr>"

text \<open>
  The guard \<open>!originalImage\<close> holds for \<open>null\<close> and for the empty string. The requests carry
  the indices 1 to \<open>TOTAL_FRAMES\<close>; \<open>completion\<close> is the order in which they complete.
\<close>

definition handleGenerate :: "service \<Rightarrow> nat list \<Rightarrow> app_state \<Rightarrow> app_state" where
  "handleGenerate generateContent completion s =
     (case originalImage s of
        None \<Rightarrow> s
      | Some img \<Rightarrow>
          if img = [] then s
          else
            (let s1 = s \<lparr> status := \<lparr> isGenerating = True, completedFrames = 0,
                                      totalFrames = TOTAL_FRAMES, error = None \<rparr>,
                          generatedFrames := [] \<rparr>;
                 launched = [1 ..< Suc TOTAL_FRAMES];
                 outcome = (\<lambda>i. generateMotionFrame generateContent img i TOTAL_FRAMES
                                   (promptDescription s) (selectedDirection s));
                 r = run_batch launched outcome generate_catch completion s1
             in (case promise_all launched r of
                   None \<Rightarrow> app r
                 | Some results \<Rightarrow>
                     (app r) \<lparr> generatedFrames := img # sorted_frames results,
                               status := (status (app r)) \<lparr> isGenerating := False \<rparr> \<rparr>)))"

section \<open>Aspect ratio (getClosestAspectRatio)\<close>

text \<open>
  The browser, as far as the handlers ask it: the key dialogue of the hosting page
  (\<open>window.aistudio\<close>, whose object and methods may be missing), image loading (the width
  and height of the loaded image, or the \<open>onerror\<close> rejection), whether a 2D canvas
  context exists, which recording formats \<open>MediaRecorder\<close> supports, the clock, and
  whether the archive library builds the archive.
\<close>

record aistudio =
  hasSelectedApiKey :: "(failure + bool) option"
  openSelectKey :: "(failure + unit) option"

record browser =
  window_aistudio :: "aistudio option"
  loadImage :: "string \<Rightarrow> failure + nat \<times> nat"
  canvas2d :: bool
  isTypeSupported :: "string \<Rightarrow> bool"
  now :: int
  generateAsync :: "(string \<times> string) list \<Rightarrow> failure option"

text \<open>
  JavaScript numbers are IEEE 754 doubles. A finite double is modelled as the rational
  number it denotes; \<open>round_double\<close> rounds a rational to the nearest double with 53
  significant bits, ties to the even significand. Overflow and subnormal numbers are
  not modelled: the width and height of an image are 32-bit unsigned integers, and no
  quotient or difference below is outside the normal range.
\<close>

fun bit_length :: "nat \<Rightarrow> nat" where
  "bit_length n = (if n = 0 then 0 else Suc (bit_length (n div 2)))"

declare bit_length.simps [simp del]

text \<open>The exponent \<open>e\<close> with \<open>2 ^ e \<le> x < 2 ^ (e + 1)\<close>, for a positive \<open>x\<close>.\<close>

definition binary_exponent :: "rat \<Rightarrow> int" where
  "binary_exponent x =
     (if 1 \<le> x then int (bit_length (nat \<lfloor>x\<rfloor>)) - 1
      else - int (bit_length (nat (\<lceil>1 / x\<rceil> - 1))))"

definition round_half_even :: "rat \<Rightarrow> int" where
  "round_half_even x =
     (let f = \<lfloor>x\<rfloor>; d = x - of_int f
      in if d < 1 / 2 then f
         else if 1 / 2 < d then f + 1
         else if even f then f else f + 1)"

definition round_double :: "rat \<Rightarrow> rat" where
  "round_double x =
     (if x = 0 then 0
      else
        (let e = binary_exponent \<bar>x\<bar>;
             scale = (if e \<le> 52 then 2 ^ nat (52 - e) else 1 / 2 ^ nat (e - 52))
         in sgn x * of_int (round_half_even (\<bar>x\<bar> * scale)) / scale))"

datatype js_number = Num rat | Infinity | NaN

text \<open>\<open>img.width / img.height\<close>: a division by zero gives \<open>Infinity\<close>, or \<open>NaN\<close> for 0/0.\<close>

definition js_div :: "nat \<Rightarrow> nat \<Rightarrow> js_number" where
  "js_div w h =
     (if h = 0 then (if w = 0 then NaN else Infinity)
      else Num (round_double (of_nat w / of_nat h)))"

text \<open>\<open>Math.abs(a - b)\<close> on finite numbers.\<close>

definition abs_diff :: "rat \<Rightarrow> rat \<Rightarrow> rat" where
  "abs_diff a b = round_double \<bar>a - b\<bar>"

record ratio_entry =
  id' :: string
  val :: rat

text \<open>The values are the doubles that the decimal literals of the source denote.\<close>

definition supportedRatios :: "ratio_entry list" where
  "supportedRatios =
     [ \<lparr> id' = ''1:1'', val = round_double 1 \<rparr>,
       \<lparr> id' = ''3:4'', val = round_double (75 / 100) \<rparr>,
       \<lparr> id' = ''4:3'', val = round_double (1333 / 1000) \<rparr>,
       \<lparr> id' = ''9:16'', val = round_double (5625 / 10000) \<rparr>,
       \<lparr> id' = ''16:9'', val = round_double (1778 / 1000) \<rparr> ]"

text \<open>
  \<open>Math.abs(curr.val - ratio) < Math.abs(prev.val - ratio)\<close>: with an infinite ratio both
  sides are \<open>Infinity\<close>, with \<open>NaN\<close> both are \<open>NaN\<close>, and the comparison is false.
\<close>

definition strictly_closer :: "js_number \<Rightarrow> ratio_entry \<Rightarrow> ratio_entry \<Rightarrow> bool" where
  "strictly_closer ratio cur prev =
     (case ratio of
        Num r \<Rightarrow> abs_diff (val cur) r < abs_diff (val prev) r
      | Infinity \<Rightarrow> False
      | NaN \<Rightarrow> False)"

text \<open>\<open>Array.prototype.reduce\<close> without an initial value; it throws on an empty array.\<close>

definition reduce :: "('a \<Rightarrow> 'a \<Rightarrow> 'a) \<Rightarrow> 'a list \<Rightarrow> failure + 'a" where
  "reduce f xs = (case xs of [] \<Rightarrow> Inl TypeError | x # rest \<Rightarrow> Inr (foldl f x rest))"

definition closest :: "js_number \<Rightarrow> failure + ratio_entry" where
  "closest ratio =
     reduce (\<lambda>prev cur. if strictly_closer ratio cur prev then cur else prev) supportedRatios"

definition getClosestAspectRatio :: "browser \<Rightarrow> string \<Rightarrow> failure + string" where
  "getClosestAspectRatio env imgSrc =
     (case loadImage env imgSrc of
        Inl e \<Rightarrow> Inl e
      | Inr (width, height) \<Rightarrow>
          (case closest (js_div width height) of
             Inl e \<Rightarrow> Inl e
           | Inr c \<Rightarrow> Inr (id' c)))"

section \<open>Upscaling (handleUpscale)\<close>

text \<open>
  The check of the API key before the batch: \<open>Inr True\<close> when the handler goes on,
  \<open>Inr False\<close> when it returns because the key dialogue failed, \<open>Inl e\<close> when
  \<open>hasSelectedApiKey\<close> rejects, which is outside every \<open>try\<close> and ends the handler.
\<close>

definition ensure_api_key :: "aistudio option \<Rightarrow> failure + bool" where
  "ensure_api_key w =
     (case w of
        None \<Rightarrow> Inr True
      | Some a \<Rightarrow>
          (case hasSelectedApiKey a of
             None \<Rightarrow> Inr True
           | Some (Inl e) \<Rightarrow> Inl e
           | Some (Inr hasKey) \<Rightarrow>
               if hasKey then Inr True
               else (case openSelectKey a of
                       None \<Rightarrow> Inr True
                     | Some (Inl e) \<Rightarrow> Inr False
                     | Some (Inr u) \<Rightarrow> Inr True)))"

definition upscale_catch :: "app_state \<Rightarrow> app_state" where
  "upscale_catch s =
     s \<lparr> alerts := alerts s @ [''Upscale failed. Please check your API key quotas or try again.''] \<rparr>"

definition upscale_finally :: "app_state \<Rightarrow> app_state" where
  "upscale_finally s =
     s \<lparr> isUpscaling := False, status := (status s) \<lparr> isGenerating := False \<rparr> \<rparr>"

text \<open>
  The requests carry the positions 0 to \<open>length - 1\<close> of the frames. In every case in
  which the handler ends before its first state update, the state is returned as it is.
\<close>

definition handleUpscale :: "service \<Rightarrow> browser \<Rightarrow> nat list \<Rightarrow> app_state \<Rightarrow> app_state" where
  "handleUpscale generateContent env completion s =
     (if length (generatedFrames s) = 0 then s
      else (case ensure_api_key (window_aistudio env) of
              Inl e \<Rightarrow> s
            | Inr False \<Rightarrow> s
            | Inr True \<Rightarrow>
                (let frames = generatedFrames s;
                     s1 = s \<lparr> isUpscaling := True,
                              status := (status s) \<lparr> completedFrames := 0,
                                                     totalFrames := length frames \<rparr> \<rparr>
                 in (case getClosestAspectRatio env (frames ! 0) of
                       Inl e \<Rightarrow> upscale_finally (upscale_catch s1)
                     | Inr aspectRatio \<Rightarrow>
                         (let launched = [0 ..< length frames];
                              outcome = (\<lambda>i. upscaleFrame generateContent (frames ! i) aspectRatio);
                              r = run_batch launched outcome (upscale_finally \<circ> upscale_catch)
                                    completion s1
                          in (case promise_all launched r of
                                None \<Rightarrow> app r
                              | Some results \<Rightarrow>
                                  upscale_finally
                                    ((app r) \<lparr> generatedFrames := sorted_frames results \<rparr>)))))))"

section \<open>Export (handleDownloadVideo, handleDownloadZip)\<close>

text \<open>Awaiting \<open>loadImage\<close> for each frame in turn; the first rejection ends the loop.\<close>

fun load_all :: "(string \<Rightarrow> failure + nat \<times> nat) \<Rightarrow> string list \<Rightarrow> failure + (nat \<times> nat) list" where
  "load_all load [] = Inr []"
| "load_all load (f # fs) =
     (case load f of
        Inl e \<Rightarrow> Inl e
      | Inr img \<Rightarrow> (case load_all load fs of Inl e \<Rightarrow> Inl e | Inr imgs \<Rightarrow> Inr (img # imgs)))"

definition video_catch :: "app_state \<Rightarrow> app_state" where
  "video_catch s = s \<lparr> isDownloading := False, alerts := alerts s @ [''Failed to create video.''] \<rparr>"

text \<open>
  The recorder's \<open>onstop\<close> callback, which offers the file and clears the flag, is taken
  to run when the recorder is stopped. Creating the stream and the recorder is taken to
  succeed.
\<close>

definition handleDownloadVideo :: "browser \<Rightarrow> app_state \<Rightarrow> app_state" where
  "handleDownloadVideo env s =
     (if length (generatedFrames s) = 0 then s
      else
        (let s1 = s \<lparr> isDownloading := True \<rparr>
         in if \<not> canvas2d env then video_catch s1
            else (case loadImage env (generatedFrames s ! 0) of
                    Inl e \<Rightarrow> video_catch s1
                  | Inr firstFrame \<Rightarrow>
                      if \<not> isTypeSupported env ''video/webm'' \<and> \<not> isTypeSupported env ''video/mp4''
                      then s1 \<lparr> alerts := alerts s1 @
                                  [''Video recording not supported on this browser. Please try downloading frames as ZIP.''],
                                isDownloading := False \<rparr>
                      else
                        (let mimeType = (if isTypeSupported env ''video/webm'' then ''video/webm''
                                         else ''video/mp4'')
                         in (case load_all (loadImage env) (generatedFrames s) of
                               Inl e \<Rightarrow> video_catch s1
                             | Inr imgs \<Rightarrow>
                                 s1 \<lparr> downloads := downloads s1 @
                                        [(''motion-gen-'' @ string_of_int (now env) @ ''.'' @
                                            (if mimeType = ''video/mp4'' then ''mp4'' else ''webm''),
                                          Video mimeType (generatedFrames s))],
                                      isDownloading := False \<rparr>)))))"

text \<open>\<open>zip.file(name, data)\<close>: a new entry at the end, or new data for an entry of that name.\<close>

definition zip_file :: "string \<Rightarrow> string \<Rightarrow> (string \<times> string) list \<Rightarrow> (string \<times> string) list" where
  "zip_file name d z =
     (if name \<in> fst ` set z then map (\<lambda>(n, x). if n = name then (n, d) else (n, x)) z
      else z @ [(name, d)])"

definition filename :: "nat \<Rightarrow> string" where
  "filename index = ''frame_'' @ padStart 3 (CHR ''0'') (string_of_nat (index + 1)) @ ''.png''"

text \<open>The \<open>forEach\<close> over the frames with their positions, starting from the empty archive.\<close>

definition zip_entries :: "string list \<Rightarrow> (string \<times> string) list" where
  "zip_entries frames =
     foldl (\<lambda>z (index, frame). zip_file (filename index) (strip_data_url_prefix frame) z)
       [] (enumerate 0 frames)"

text \<open>
  The archive library, as far as the handler meets it. Building the archive decodes the
  content of every entry, which the handler stores as base64, and the library refuses
  content that starts with \<open>data:\<close>, which it takes for a data URL; the build then
  rejects, and the handler's \<open>catch\<close> runs.
\<close>

definition jszip_generateAsync :: "(string \<times> string) list \<Rightarrow> failure option" where
  "jszip_generateAsync z =
     (if list_ex (\<lambda>(name, d). take 5 d = ''data:'') z then Some ArchiveFailure else None)"

definition handleDownloadZip :: "browser \<Rightarrow> app_state \<Rightarrow> app_state" where
  "handleDownloadZip env s =
     (if length (generatedFrames s) = 0 then s
      else
        (let s1 = s \<lparr> isDownloading := True \<rparr>;
             zip = zip_entries (generatedFrames s)
         in (case generateAsync env zip of
               Some e \<Rightarrow>
                 s1 \<lparr> alerts := alerts s1 @ [''Failed to create ZIP archive.''],
                      isDownloading := False \<rparr>
             | None \<Rightarrow>
                 s1 \<lparr> downloads := downloads s1 @
                        [(''motion-gen-frames-'' @ string_of_int (now env) @ ''.zip'', ZipArchive zip)],
                      isDownloading := False \<rparr>)))"

section \<open>Playback (AnimationPlayer)\<close>

text \<open>
  The two state cells of the player. A handler calls the setters in order; a call is
  recorded as an update, with the updater function where the source passes one, and
  React applies the updates of a handler in the order of the calls.
\<close>

record player_state =
  currentIndex :: int
  isPlaying :: bool

datatype update = SetIsPlaying bool | SetCurrentIndex "int \<Rightarrow> int"

fun apply_update :: "player_state \<Rightarrow> update \<Rightarrow> player_state" where
  "apply_update s (SetIsPlaying b) = s \<lparr> isPlaying := b \<rparr>"
| "apply_update s (SetCurrentIndex f) = s \<lparr> currentIndex := f (currentIndex s) \<rparr>"

definition apply_updates :: "update list \<Rightarrow> player_state \<Rightarrow> player_state" where
  "apply_updates us s = foldl apply_update s us"

text \<open>
  The remainder operator \<open>%\<close> on whole numbers with a divisor other than 0: the result
  has the sign of the dividend. (The component renders nothing, and so has no handlers,
  for an empty sequence.)
\<close>

definition js_rem :: "int \<Rightarrow> int \<Rightarrow> int" where
  "js_rem a b = sgn a * (\<bar>a\<bar> mod \<bar>b\<bar>)"

definition initial_player :: player_state where
  "initial_player = \<lparr> currentIndex = 0, isPlaying = False \<rparr>"

definition handleNext :: "string list \<Rightarrow> update list" where
  "handleNext frames =
     [SetIsPlaying False, SetCurrentIndex (\<lambda>prev. js_rem (prev + 1) (int (length frames)))]"

definition handlePrev :: "string list \<Rightarrow> update list" where
  "handlePrev frames =
     [SetIsPlaying False,
      SetCurrentIndex (\<lambda>prev. js_rem (prev - 1 + int (length frames)) (int (length frames)))]"

definition handleThumbnailClick :: "nat \<Rightarrow> update list" where
  "handleThumbnailClick index = [SetIsPlaying False, SetCurrentIndex (\<lambda>prev. int index)]"

definition handlePlayPause :: "player_state \<Rightarrow> update list" where
  "handlePlayPause s = [SetIsPlaying (\<not> isPlaying s)]"

definition handleReset :: "update list" where
  "handleReset = [SetIsPlaying False, SetCurrentIndex (\<lambda>prev. 0)]"

definition interval_tick :: "string list \<Rightarrow> update list" where
  "interval_tick frames = [SetCurrentIndex (\<lambda>prev. js_rem (prev + 1) (int (length frames)))]"

text \<open>
  What can happen to a player that shows a fixed sequence. The thumbnail strip has one
  button for each position of the sequence, so a click on a position outside of it does
  not exist; the interval runs only while playing a sequence of more than one frame.
\<close>

datatype action = Next | Prev | Thumbnail nat | PlayPause | Reset | Tick

fun player_step :: "string list \<Rightarrow> player_state \<Rightarrow> action \<Rightarrow> player_state" where
  "player_step frames s Next = apply_updates (handleNext frames) s"
| "player_step frames s Prev = apply_updates (handlePrev frames) s"
| "player_step frames s (Thumbnail idx) =
     (if idx < length frames then apply_updates (handleThumbnailClick idx) s else s)"
| "player_step frames s PlayPause = apply_updates (handlePlayPause s) s"
| "player_step frames s Reset = apply_updates handleReset s"
| "player_step frames s Tick =
     (if isPlaying s \<and> length frames > 1 then apply_updates (interval_tick frames) s else s)"

definition player_run :: "string list \<Rightarrow> action list \<Rightarrow> player_state" where
  "player_run frames acts = foldl (player_step frames) initial_player acts"

section \<open>Example inputs\<close>

text \<open>A service whose every call is rejected.\<close>

definition failing_service :: service where
  "failing_service req = Inl ApiFailure"

text \<open>
  A service that answers with a text part followed by an image part. The image data of
  a motion frame names the index of the request, so that the frames can be told apart.
\<close>

definition numbered_service :: service where
  "numbered_service req =
     Inr \<lparr> candidates = Some
           [\<lparr> content = Some
                \<lparr> parts = Some
                    [\<lparr> partText = Some ''Here is the frame.'', inlineData = None \<rparr>,
                     \<lparr> partText = None,
                       inlineData = Some
                         \<lparr> mimeType = Some ''image/png'',
                           data = Some (case req_prompt req of
                                          MotionPrompt i n d dir \<Rightarrow> ''F'' @ string_of_nat i
                                        | UpscalePrompt \<Rightarrow> ''U'' @ req_data req) \<rparr> \<rparr>] \<rparr> \<rparr>] \<rparr>"

text \<open>A service that answers with text only.\<close>

definition text_only_service :: service where
  "text_only_service req =
     Inr \<lparr> candidates = Some
           [\<lparr> content = Some
                \<lparr> parts = Some [\<lparr> partText = Some ''I cannot do that.'', inlineData = None \<rparr>] \<rparr> \<rparr>] \<rparr>"

text \<open>A state with a seed image and a sequence from an earlier generation.\<close>

definition seeded_app :: app_state where
  "seeded_app =
     initial_app \<lparr> originalImage := Some ''data:image/jpeg;base64,AAAA'',
                   generatedFrames := [''data:image/jpeg;base64,AAAA'', ''data:image/png;base64,OLD''] \<rparr>"

text \<open>A state whose seed image is an SVG file, as the first frame of its sequence.\<close>

definition svg_app :: app_state where
  "svg_app =
     initial_app \<lparr> originalImage := Some ''data:image/svg+xml;base64,PHN2Zy8+'',
                   generatedFrames := [''data:image/svg+xml;base64,PHN2Zy8+'',
                                       ''data:image/png;base64,AAAA'',
                                       ''data:image/png;base64,AAAB'',
                                       ''data:image/png;base64,AAAC'',
                                       ''data:image/png;base64,AAAD'',
                                       ''data:image/png;base64,AAAE'',
                                       ''data:image/png;base64,AAAF'',
                                       ''data:image/png;base64,AAAG'',
                                       ''data:image/png;base64,AAAH'',
                                       ''data:image/png;base64,AAAI'',
                                       ''data:image/png;base64,AAAJ''] \<rparr>"

text \<open>
  A browser without a key dialogue, in which every image loads with 21 by 32 pixels,
  which records WebM, and in which the archive library is the one described above.
\<close>

definition plain_browser :: browser where
  "plain_browser =
     \<lparr> window_aistudio = None,
       loadImage = (\<lambda>src. Inr (21, 32)),
       canvas2d = True,
       isTypeSupported = (\<lambda>m. m = ''video/webm''),
       now = 1700000000000,
       generateAsync = jszip_generateAsync \<rparr>"

section \<open>Properties of the image service\<close>

lemma image_url_empty_iff: "image_url ps = [] \<longleftrightarrow> \<not> list_ex part_has_data ps"
  by (induction ps) (auto simp: part_has_data_def split: option.splits)

lemma image_url_prefix:
  "image_url ps \<noteq> [] \<Longrightarrow>
     \<exists>payload. payload \<noteq> [] \<and> image_url ps = ''data:image/png;base64,'' @ payload"
proof (induction ps)
  case Nil
  then show ?case by simp
next
  case (Cons p ps)
  show ?case
  proof (cases "part_has_data p")
    case True
    then obtain idata d where "inlineData p = Some idata" "data idata = Some d" "d \<noteq> []"
      by (auto simp: part_has_data_def split: option.splits)
    then have "image_url (p # ps) = ''data:image/png;base64,'' @ d"
      by simp
    with \<open>d \<noteq> []\<close> show ?thesis
      by blast
  next
    case False
    then have "image_url (p # ps) = image_url ps"
      by (auto simp: part_has_data_def split: option.splits)
    with Cons show ?thesis
      by simp
  qed
qed

lemma extract_image_prefix:
  "extract_image msg response = Inr url \<Longrightarrow>
     \<exists>payload. payload \<noteq> [] \<and> url = ''data:image/png;base64,'' @ payload"
  unfolding extract_image_def
  by (auto split: option.splits list.splits if_splits dest!: image_url_prefix)

lemma extract_image_no_data:
  "\<not> contains_image_data response \<Longrightarrow> \<exists>e. extract_image msg response = Inl e"
  by (auto simp: extract_image_def contains_image_data_def candidate_has_data_def
        image_url_empty_iff split: option.splits list.splits)

text \<open>
  Claim C9. A call of \<open>generateMotionFrame\<close> or \<open>upscaleFrame\<close> that returns a frame
  returns a string that starts with \<open>data:image/png;base64,\<close>, followed by a non-empty
  payload, whatever the input image is; and when the response of the service to the
  request of the call contains no image data, the call fails with an error.
\<close>

theorem service_returns_png_data_url:
  "(generateMotionFrame api base64Image frameIndex frameCount description direction = Inr url \<longrightarrow>
      (\<exists>payload. payload \<noteq> [] \<and> url = ''data:image/png;base64,'' @ payload))
   \<and> (upscaleFrame api base64Image aspectRatio = Inr url \<longrightarrow>
      (\<exists>payload. payload \<noteq> [] \<and> url = ''data:image/png;base64,'' @ payload))
   \<and> (api (motion_request base64Image frameIndex frameCount description direction) = Inr response
        \<and> \<not> contains_image_data response \<longrightarrow>
      (\<exists>e. generateMotionFrame api base64Image frameIndex frameCount description direction = Inl e))
   \<and> (api (upscale_request base64Image aspectRatio) = Inr response
        \<and> \<not> contains_image_data response \<longrightarrow>
      (\<exists>e. upscaleFrame api base64Image aspectRatio = Inl e))"
proof -
  have "\<exists>payload. payload \<noteq> [] \<and> url = ''data:image/png;base64,'' @ payload"
    if "generateMotionFrame api base64Image frameIndex frameCount description direction = Inr url"
    using that extract_image_prefix
    by (fastforce simp: generateMotionFrame_def split: sum.splits)
  moreover have "\<exists>payload. payload \<noteq> [] \<and> url = ''data:image/png;base64,'' @ payload"
    if "upscaleFrame api base64Image aspectRatio = Inr url"
    using that extract_image_prefix
    by (fastforce simp: upscaleFrame_def split: sum.splits)
  moreover have
    "\<exists>e. generateMotionFrame api base64Image frameIndex frameCount description direction = Inl e"
    if "api (motion_request base64Image frameIndex frameCount description direction) = Inr response"
      and "\<not> contains_image_data response"
    using that extract_image_no_data by (simp add: generateMotionFrame_def)
  moreover have "\<exists>e. upscaleFrame api base64Image aspectRatio = Inl e"
    if "api (upscale_request base64Image aspectRatio) = Inr response"
      and "\<not> contains_image_data response"
    using that extract_image_no_data by (simp add: upscaleFrame_def)
  ultimately show ?thesis
    by blast
qed

text \<open>
  The theorem at a JPEG input: the numbered service gives PNG data URLs for both calls,
  and the service that answers with text only makes both calls fail.
\<close>

theorem service_returns_png_data_url_witness:
  "generateMotionFrame numbered_service ''data:image/jpeg;base64,AAAA'' 7 10 ''walks'' ''Left''
     = Inr ''data:image/png;base64,F7''
   \<and> upscaleFrame numbered_service ''data:image/jpeg;base64,AAAA'' ''1:1''
     = Inr ''data:image/png;base64,UAAAA''
   \<and> (\<exists>e. generateMotionFrame text_only_service ''data:image/jpeg;base64,AAAA'' 7 10 ''walks'' ''Left''
          = Inl e)
   \<and> (\<exists>e. upscaleFrame text_only_service ''data:image/jpeg;base64,AAAA'' ''1:1'' = Inl e)"
proof -
  let ?img = "''data:image/jpeg;base64,AAAA''"
  let ?none = "\<lparr> candidates = Some
           [\<lparr> content = Some
                \<lparr> parts = Some [\<lparr> partText = Some ''I cannot do that.'', inlineData = None \<rparr>] \<rparr> \<rparr>] \<rparr>"
  have digits: "string_of_nat 7 = ''7''"
    by (simp add: string_of_nat.simps digit_char_def)
  have clean: "cleanBase64 ?img = ''AAAA''"
    by (simp add: cleanBase64_def drop_prefix_def)
  have motion: "generateMotionFrame numbered_service ?img 7 10 ''walks'' ''Left''
                  = Inr ''data:image/png;base64,F7''"
    by (simp add: generateMotionFrame_def numbered_service_def motion_request_def
          extract_image_def digits)
  have upscale: "upscaleFrame numbered_service ?img ''1:1'' = Inr ''data:image/png;base64,UAAAA''"
    by (simp add: upscaleFrame_def numbered_service_def upscale_request_def extract_image_def
          clean)
  have no_data: "\<not> contains_image_data ?none"
    by (simp add: contains_image_data_def candidate_has_data_def part_has_data_def)
  have answers: "text_only_service (motion_request ?img 7 10 ''walks'' ''Left'') = Inr ?none"
    "text_only_service (upscale_request ?img ''1:1'') = Inr ?none"
    by (simp_all add: text_only_service_def)
  from service_returns_png_data_url
         [of text_only_service ?img 7 10 "''walks''" "''Left''" "''''" "''1:1''" ?none]
    answers no_data
  have "(\<exists>e. generateMotionFrame text_only_service ?img 7 10 ''walks'' ''Left'' = Inl e)
        \<and> (\<exists>e. upscaleFrame text_only_service ?img ''1:1'' = Inl e)"
    by blast
  moreover from service_returns_png_data_url
         [of numbered_service ?img 7 10 "''walks''" "''Left''" "''data:image/png;base64,F7''"]
    motion
  have "\<exists>payload. payload \<noteq> [] \<and> ''data:image/png;base64,F7'' = ''data:image/png;base64,'' @ payload"
    by blast
  ultimately show ?thesis
    using motion upscale by blast
qed

section \<open>Properties of a batch\<close>

text \<open>An invariant of single completions is an invariant of the whole run.\<close>

lemma fold_settle_invariant:
  assumes "\<And>i r. J r \<Longrightarrow> J (settle launched outcome h i r)" and "J r"
  shows "J (fold (settle launched outcome h) cs r)"
  using assms(2) by (induction cs arbitrary: r) (simp_all add: assms(1))

lemma settle_rejected_mono: "rejected r \<Longrightarrow> rejected (settle launched outcome h i r)"
  by (simp add: settle_def split: sum.splits)

lemma fold_settle_rejected_mono:
  "rejected r \<Longrightarrow> rejected (fold (settle launched outcome h) cs r)"
  by (rule fold_settle_invariant) (simp_all add: settle_rejected_mono)

lemma settle_settled_subset:
  "set (settled (settle launched outcome h i r)) \<subseteq> insert i (set (settled r))"
  by (auto simp: settle_def split: sum.splits)

text \<open>Once a launched request that fails has completed, the batch is rejected.\<close>

lemma fold_settle_failure_rejects:
  assumes "outcome k = Inl e" and "k \<in> set launched"
  shows "k \<in> set cs \<Longrightarrow> (k \<in> set (settled r) \<longrightarrow> rejected r) \<Longrightarrow>
         rejected (fold (settle launched outcome h) cs r)"
proof (induction cs arbitrary: r)
  case Nil
  then show ?case by simp
next
  case (Cons c cs)
  show ?case
  proof (cases "c = k")
    case True
    with assms Cons.prems(2) have "rejected (settle launched outcome h c r)"
      by (simp add: settle_def)
    then show ?thesis
      by (simp add: fold_settle_rejected_mono)
  next
    case False
    with Cons.prems(1) have "k \<in> set cs"
      by simp
    moreover have "k \<in> set (settled (settle launched outcome h c r)) \<longrightarrow>
                   rejected (settle launched outcome h c r)"
      using False Cons.prems(2) settle_settled_subset [of launched outcome h c r]
      by (auto simp: settle_rejected_mono)
    ultimately show ?thesis
      using Cons.IH by simp
  qed
qed

text \<open>When every launched request succeeds, the settled ones hold their frames.\<close>

lemma fold_settle_all_fulfilled:
  assumes ok: "\<forall>i\<in>set launched. outcome i = Inr (frame i)"
  shows "\<not> rejected r \<Longrightarrow> (\<forall>i\<in>set (settled r). fulfilled r i = Some (frame i)) \<Longrightarrow>
         \<not> rejected (fold (settle launched outcome h) cs r)
         \<and> (\<forall>i\<in>set (settled (fold (settle launched outcome h) cs r)).
               fulfilled (fold (settle launched outcome h) cs r) i = Some (frame i))
         \<and> set (settled (fold (settle launched outcome h) cs r))
             = set (settled r) \<union> (set cs \<inter> set launched)"
proof (induction cs arbitrary: r)
  case Nil
  then show ?case by simp
next
  case (Cons c cs)
  let ?r = "settle launched outcome h c r"
  have 1: "\<not> rejected ?r"
    using Cons.prems(1) ok by (auto simp: settle_def split: sum.splits)
  have 2: "\<forall>i\<in>set (settled ?r). fulfilled ?r i = Some (frame i)"
    using Cons.prems(2) ok by (auto simp: settle_def split: sum.splits)
  have 3: "set (settled ?r) = set (settled r) \<union> (set [c] \<inter> set launched)"
    using ok by (auto simp: settle_def split: sum.splits)
  from Cons.IH [OF 1 2] 3 show ?case
    by auto
qed

lemma promise_all_fulfilled:
  assumes "\<not> rejected r" and "\<forall>i\<in>set launched. fulfilled r i = Some (frame i)"
  shows "promise_all launched r = Some (map (\<lambda>i. (i, frame i)) launched)"
proof -
  have "those (map (\<lambda>i. map_option (Pair i) (fulfilled r i)) xs) = Some (map (\<lambda>i. (i, frame i)) xs)"
    if "\<forall>i\<in>set xs. fulfilled r i = Some (frame i)" for xs
    using that by (induction xs) simp_all
  with assms show ?thesis
    by (simp add: promise_all_def)
qed

lemma promise_all_rejected: "rejected r \<Longrightarrow> promise_all launched r = None"
  by (simp add: promise_all_def)

lemma sorted_frames_in_order:
  "sorted launched \<Longrightarrow> sorted_frames (map (\<lambda>i. (i, frame i)) launched) = map frame launched"
  by (simp add: sorted_frames_def sort_key_id_if_sorted comp_def)

lemma run_batch_all_fulfilled:
  assumes "\<forall>i\<in>set launched. outcome i = Inr (frame i)" and "set launched \<subseteq> set completion"
  shows "promise_all launched (run_batch launched outcome h completion s)
           = Some (map (\<lambda>i. (i, frame i)) launched)"
proof -
  let ?r0 = "\<lparr> app = s, fulfilled = Map.empty, settled = [], rejected = False \<rparr>"
  have "\<not> rejected ?r0" and "\<forall>i\<in>set (settled ?r0). fulfilled ?r0 i = Some (frame i)"
    by simp_all
  from fold_settle_all_fulfilled [OF assms(1) this, of h completion] assms(2)
  show ?thesis
    unfolding run_batch_def by (intro promise_all_fulfilled) auto
qed

section \<open>Properties of frame generation\<close>

lemma handleGenerate_success:
  assumes "originalImage s = Some seed" and "seed \<noteq> []"
    and "\<forall>i\<in>set [1 ..< Suc TOTAL_FRAMES].
           generateMotionFrame api seed i TOTAL_FRAMES (promptDescription s) (selectedDirection s)
             = Inr (frame i)"
    and "set [1 ..< Suc TOTAL_FRAMES] \<subseteq> set completion"
  shows "generatedFrames (handleGenerate api completion s) = seed # map frame [1 ..< Suc TOTAL_FRAMES]"
proof -
  let ?launched = "[1 ..< Suc TOTAL_FRAMES]"
  let ?outcome = "\<lambda>i. generateMotionFrame api seed i TOTAL_FRAMES (promptDescription s) (selectedDirection s)"
  have "promise_all ?launched (run_batch ?launched ?outcome generate_catch completion s1)
          = Some (map (\<lambda>i. (i, frame i)) ?launched)" for s1
    using assms(3,4) by (rule run_batch_all_fulfilled)
  moreover have "sorted_frames (map (\<lambda>i. (i, frame i)) ?launched) = map frame ?launched"
    by (rule sorted_frames_in_order) (rule sorted_upt)
  ultimately show ?thesis
    using assms(1,2) by (simp add: handleGenerate_def Let_def)
qed

text \<open>
  Claim C1. Let the state hold a seed image (a non-empty string, since the handler
  returns at once on an empty one), let each of the \<open>TOTAL_FRAMES\<close> = 10 requests succeed
  with the frame \<open>frame i\<close> for its index \<open>i\<close>, and let the requests complete in any order
  (\<open>completion\<close> is any list in which each of the indices 1 to 10 occurs). Then the
  sequence after \<open>handleGenerate\<close> is the seed image followed by \<open>frame 1\<close>, ...,
  \<open>frame 10\<close>: it has 11 elements, element 0 is the seed image, and element \<open>k\<close> is the
  frame of the request with index \<open>k\<close>.
\<close>

theorem handleGenerate_all_succeed:
  assumes "originalImage s = Some seed" and "seed \<noteq> []"
    and "\<forall>i\<in>set [1 ..< Suc TOTAL_FRAMES].
           generateMotionFrame api seed i TOTAL_FRAMES (promptDescription s) (selectedDirection s)
             = Inr (frame i)"
    and "set [1 ..< Suc TOTAL_FRAMES] \<subseteq> set completion"
  shows "generatedFrames (handleGenerate api completion s) = seed # map frame [1 ..< Suc TOTAL_FRAMES]
         \<and> length (generatedFrames (handleGenerate api completion s)) = TOTAL_FRAMES + 1
         \<and> generatedFrames (handleGenerate api completion s) ! 0 = seed
         \<and> (\<forall>k\<in>{1 .. TOTAL_FRAMES}. generatedFrames (handleGenerate api completion s) ! k = frame k)"
proof -
  have eq: "generatedFrames (handleGenerate api completion s) = seed # map frame [1 ..< Suc TOTAL_FRAMES]"
    using assms by (rule handleGenerate_success)
  have "(seed # map frame [1 ..< Suc TOTAL_FRAMES]) ! k = frame k" if "k \<in> {1 .. TOTAL_FRAMES}" for k
  proof -
    from that obtain j where "k = Suc j" and "j < TOTAL_FRAMES"
      by (cases k) auto
    then show ?thesis
      by (simp del: upt_Suc)
  qed
  with eq show ?thesis
    by simp
qed

text \<open>
  The theorem on the numbered service, with the requests completing in the reverse of
  the order in which they were launched.
\<close>

theorem handleGenerate_all_succeed_witness:
  "generatedFrames (handleGenerate numbered_service (rev [1 ..< 11]) seeded_app)
     = ''data:image/jpeg;base64,AAAA''
       # map (\<lambda>i. ''data:image/png;base64,F'' @ string_of_nat i) [1 ..< 11]
   \<and> length (generatedFrames (handleGenerate numbered_service (rev [1 ..< 11]) seeded_app)) = 11"
  using handleGenerate_all_succeed [of seeded_app "''data:image/jpeg;base64,AAAA''" numbered_service
          "\<lambda>i. ''data:image/png;base64,F'' @ string_of_nat i" "rev [1 ..< 11]"]
  by (simp add: seeded_app_def initial_app_def TOTAL_FRAMES_def generateMotionFrame_def
        numbered_service_def motion_request_def extract_image_def)

lemma settle_generate_invariant:
  assumes "generatedFrames (app r) = [] \<and> (rejected r \<longrightarrow> error (status (app r)) = Some msg)"
    and "msg = ''Failed to generate frames. Please try again or use a different image.''"
  shows "generatedFrames (app (settle launched outcome generate_catch i r)) = []
         \<and> (rejected (settle launched outcome generate_catch i r) \<longrightarrow>
              error (status (app (settle launched outcome generate_catch i r))) = Some msg)"
  using assms by (simp add: settle_def frame_completed_def generate_catch_def split: sum.splits)

text \<open>
  Claim C2, as amended. \<open>handleGenerate\<close> empties the sequence before it launches the
  requests, so the sequence that was visible before is not kept. Let the state hold a
  seed image, and let one of the requests, with an index \<open>k\<close> from 1 to 10, fail and
  complete. Then the sequence after \<open>handleGenerate\<close> is empty (no frame of a request
  that succeeded is placed in it), and the status records the error message.
\<close>

theorem handleGenerate_any_failure:
  assumes "originalImage s = Some seed" and "seed \<noteq> []"
    and "k \<in> set [1 ..< Suc TOTAL_FRAMES]"
    and "generateMotionFrame api seed k TOTAL_FRAMES (promptDescription s) (selectedDirection s) = Inl e"
    and "k \<in> set completion"
  shows "generatedFrames (handleGenerate api completion s) = []
         \<and> error (status (handleGenerate api completion s))
             = Some ''Failed to generate frames. Please try again or use a different image.''"
proof -
  let ?launched = "[1 ..< Suc TOTAL_FRAMES]"
  let ?outcome = "\<lambda>i. generateMotionFrame api seed i TOTAL_FRAMES (promptDescription s) (selectedDirection s)"
  let ?msg = "''Failed to generate frames. Please try again or use a different image.''"
  let ?s1 = "s \<lparr> status := \<lparr> isGenerating = True, completedFrames = 0,
                               totalFrames = TOTAL_FRAMES, error = None \<rparr>,
                   generatedFrames := [] \<rparr>"
  let ?r = "run_batch ?launched ?outcome generate_catch completion ?s1"
  have rej: "rejected ?r"
    unfolding run_batch_def
    using assms(4,3,5) by (rule fold_settle_failure_rejects) simp
  have "generatedFrames (app ?r) = [] \<and> (rejected ?r \<longrightarrow> error (status (app ?r)) = Some ?msg)"
    unfolding run_batch_def
  proof (rule fold_settle_invariant
      [where J = "\<lambda>r::batch_run. generatedFrames (app r) = []
                    \<and> (rejected r \<longrightarrow> error (status (app r)) = Some ?msg)"])
    fix i and r :: batch_run
    assume "generatedFrames (app r) = [] \<and> (rejected r \<longrightarrow> error (status (app r)) = Some ?msg)"
    then show "generatedFrames (app (settle ?launched ?outcome generate_catch i r)) = []
         \<and> (rejected (settle ?launched ?outcome generate_catch i r) \<longrightarrow>
              error (status (app (settle ?launched ?outcome generate_catch i r))) = Some ?msg)"
      by (rule settle_generate_invariant) simp
  qed simp
  with rej have "generatedFrames (app ?r) = []" and "error (status (app ?r)) = Some ?msg"
    by simp_all
  moreover have "handleGenerate api completion s = app ?r"
    using assms(1,2) rej by (simp add: handleGenerate_def Let_def promise_all_rejected)
  ultimately show ?thesis
    by simp
qed

text \<open>The theorem on the numbered service with one request, the third, rejected.\<close>

theorem handleGenerate_any_failure_witness:
  "generatedFrames
     (handleGenerate (\<lambda>req. if req_prompt req = MotionPrompt 3 10 ''The main subject is moving'' ''Right''
                             then Inl ApiFailure else numbered_service req)
        [2, 1, 3, 5, 4, 6, 7, 8, 9, 10] seeded_app) = []
   \<and> error (status
       (handleGenerate (\<lambda>req. if req_prompt req = MotionPrompt 3 10 ''The main subject is moving'' ''Right''
                               then Inl ApiFailure else numbered_service req)
          [2, 1, 3, 5, 4, 6, 7, 8, 9, 10] seeded_app))
     = Some ''Failed to generate frames. Please try again or use a different image.''"
  using handleGenerate_any_failure [of seeded_app "''data:image/jpeg;base64,AAAA''" 3
          "\<lambda>req. if req_prompt req = MotionPrompt 3 10 ''The main subject is moving'' ''Right''
                 then Inl ApiFailure else numbered_service req"
          ApiFailure "[2, 1, 3, 5, 4, 6, 7, 8, 9, 10]"]
  by (simp add: seeded_app_def initial_app_def TOTAL_FRAMES_def generateMotionFrame_def
        motion_request_def)

text \<open>
  Claim C2 as it is stated fails: in a state with a seed image and a sequence of two
  frames, a generation in which every request fails leaves a sequence that is not the
  one before.
\<close>

theorem handleGenerate_failure_clears_sequence:
  "originalImage seeded_app = Some ''data:image/jpeg;base64,AAAA''
   \<and> generateMotionFrame failing_service ''data:image/jpeg;base64,AAAA'' 1 TOTAL_FRAMES
         (promptDescription seeded_app) (selectedDirection seeded_app) = Inl ApiFailure
   \<and> generatedFrames seeded_app = [''data:image/jpeg;base64,AAAA'', ''data:image/png;base64,OLD'']
   \<and> generatedFrames (handleGenerate failing_service [1 ..< 11] seeded_app) = []
   \<and> generatedFrames (handleGenerate failing_service [1 ..< 11] seeded_app)
       \<noteq> generatedFrames seeded_app"
proof -
  have after: "generatedFrames (handleGenerate failing_service [1 ..< 11] seeded_app) = []"
    by code_simp
  have before: "generatedFrames seeded_app = [''data:image/jpeg;base64,AAAA'', ''data:image/png;base64,OLD'']"
    and seed: "originalImage seeded_app = Some ''data:image/jpeg;base64,AAAA''"
    by (simp_all add: seeded_app_def initial_app_def)
  have "generateMotionFrame failing_service ''data:image/jpeg;base64,AAAA'' 1 TOTAL_FRAMES
          (promptDescription seeded_app) (selectedDirection seeded_app) = Inl ApiFailure"
    by (simp add: generateMotionFrame_def failing_service_def)
  with after before seed show ?thesis
    by simp
qed

section \<open>Properties of aspect-ratio selection\<close>

text \<open>
  The \<open>reduce\<close> of the source, for any measure \<open>d\<close> of distance: the result is an
  element at some position \<open>k\<close> whose distance is least, and every element before
  position \<open>k\<close> is strictly farther.
\<close>

lemma foldl_closest:
  fixes d :: "'a \<Rightarrow> rat"
  shows "\<exists>k<length (x # xs).
           foldl (\<lambda>prev cur. if d cur < d prev then cur else prev) x xs = (x # xs) ! k
         \<and> (\<forall>j<length (x # xs). d ((x # xs) ! k) \<le> d ((x # xs) ! j))
         \<and> (\<forall>j<k. d ((x # xs) ! k) < d ((x # xs) ! j))"
proof (induction xs rule: rev_induct)
  case Nil
  then show ?case by simp
next
  case (snoc y ys)
  let ?f = "\<lambda>prev cur. if d cur < d prev then cur else prev"
  let ?zs = "x # ys"
  from snoc obtain k where k: "k < length ?zs" "foldl ?f x ys = ?zs ! k"
    and least: "\<forall>j<length ?zs. d (?zs ! k) \<le> d (?zs ! j)"
    and first: "\<forall>j<k. d (?zs ! k) < d (?zs ! j)"
    by blast
  have nth_old: "(x # ys @ [y]) ! j = ?zs ! j" if "j < length ?zs" for j
    using that nth_append [of ?zs "[y]" j] by simp
  have nth_new: "(x # ys @ [y]) ! length ?zs = y"
    using nth_append_length [of ?zs y "[]"] by simp
  show ?case
  proof (cases "d y < d (?zs ! k)")
    case True
    have "foldl ?f x (ys @ [y]) = (x # ys @ [y]) ! length ?zs"
      using True k(2) nth_new by simp
    moreover have "\<forall>j<length (x # ys @ [y]). d y \<le> d ((x # ys @ [y]) ! j)"
    proof (intro allI impI)
      fix j assume "j < length (x # ys @ [y])"
      then consider "j < length ?zs" | "j = length ?zs"
        by force
      then show "d y \<le> d ((x # ys @ [y]) ! j)"
      proof cases
        case 1
        with least True show ?thesis
          by (metis nth_old less_le_trans less_imp_le)
      next
        case 2
        with nth_new show ?thesis
          by simp
      qed
    qed
    moreover have "\<forall>j<length ?zs. d y < d ((x # ys @ [y]) ! j)"
      using least True by (metis nth_old less_le_trans)
    ultimately show ?thesis
      using nth_new by (intro exI [of _ "length ?zs"]) simp
  next
    case False
    have "foldl ?f x (ys @ [y]) = (x # ys @ [y]) ! k"
      using False k nth_old by simp
    moreover have "\<forall>j<length (x # ys @ [y]). d ((x # ys @ [y]) ! k) \<le> d ((x # ys @ [y]) ! j)"
    proof (intro allI impI)
      fix j assume "j < length (x # ys @ [y])"
      then consider "j < length ?zs" | "j = length ?zs"
        by force
      then show "d ((x # ys @ [y]) ! k) \<le> d ((x # ys @ [y]) ! j)"
      proof cases
        case 1
        with least k(1) show ?thesis
          by (simp add: nth_old del: nth_Cons_Suc length_Cons)
      next
        case 2
        with False nth_new k(1) nth_old [of k] show ?thesis
          by simp
      qed
    qed
    moreover have "\<forall>j<k. d ((x # ys @ [y]) ! k) < d ((x # ys @ [y]) ! j)"
      using first k(1) nth_old by (metis less_trans)
    ultimately show ?thesis
      using k(1) by (intro exI [of _ k]) simp
  qed
qed

lemma closest_Num:
  "\<exists>k<length supportedRatios.
      closest (Num r) = Inr (supportedRatios ! k)
    \<and> (\<forall>j<length supportedRatios.
          abs_diff (val (supportedRatios ! k)) r \<le> abs_diff (val (supportedRatios ! j)) r)
    \<and> (\<forall>j<k. abs_diff (val (supportedRatios ! k)) r < abs_diff (val (supportedRatios ! j)) r)"
proof -
  obtain x xs where split: "supportedRatios = x # xs"
    by (simp add: supportedRatios_def)
  have "closest (Num r)
          = Inr (foldl (\<lambda>prev cur. if abs_diff (val cur) r < abs_diff (val prev) r then cur else prev) x xs)"
    by (simp add: closest_def reduce_def split strictly_closer_def)
  with foldl_closest [where d = "\<lambda>e::ratio_entry. abs_diff (val e) r" and x = x and xs = xs]
  show ?thesis
    unfolding split by auto
qed

lemma closest_not_finite:
  "ratio = Infinity \<or> ratio = NaN \<Longrightarrow> closest ratio = Inr (supportedRatios ! 0)"
  by (auto simp: closest_def reduce_def supportedRatios_def strictly_closer_def)

lemma supported_labels:
  "map id' supportedRatios = [''1:1'', ''3:4'', ''4:3'', ''9:16'', ''16:9'']"
  by (simp add: supportedRatios_def)

text \<open>Evaluating the rounding on numerals.\<close>

lemma floor_quotient_numeral: "\<lfloor>numeral a / numeral b :: rat\<rfloor> = numeral a div numeral b"
  using floor_divide_of_int_eq [of "numeral a" "numeral b", where ?'a = rat] by simp

lemma ceiling_quotient_numeral:
  "\<lceil>numeral a / numeral b :: rat\<rceil> = - (- numeral a div numeral b)"
  using floor_divide_of_int_eq [of "- numeral a" "numeral b", where ?'a = rat]
  by (simp add: ceiling_def)

lemmas round_double_eval =
  round_double_def binary_exponent_def round_half_even_def bit_length.simps Let_def
  floor_quotient_numeral ceiling_quotient_numeral

lemma supportedRatios_values:
  "supportedRatios =
     [ \<lparr> id' = ''1:1'', val = 1 \<rparr>,
       \<lparr> id' = ''3:4'', val = 3 / 4 \<rparr>,
       \<lparr> id' = ''4:3'', val = 6003298303284871 / 4503599627370496 \<rparr>,
       \<lparr> id' = ''9:16'', val = 9 / 16 \<rparr>,
       \<lparr> id' = ''16:9'', val = 4003700068732371 / 2251799813685248 \<rparr> ]"
  by (simp add: supportedRatios_def round_double_eval)

lemma plain_browser_aspect_ratio: "getClosestAspectRatio plain_browser src = Inr ''3:4''"
  by (simp add: getClosestAspectRatio_def plain_browser_def js_div_def closest_def reduce_def
        strictly_closer_def abs_diff_def supportedRatios_values round_double_eval)

text \<open>
  Claim C3. Let the first frame load with the given width and height. Then
  \<open>getClosestAspectRatio\<close> returns one of the five labels, the one at some position \<open>k\<close> of
  the list of candidates; and when the measured ratio is a finite number \<open>r\<close>, the
  absolute difference between the value of that candidate and \<open>r\<close>, as the program
  computes it, is the least among the five candidates, and every candidate at an earlier
  position is at a strictly greater absolute difference: of two candidates at the same
  absolute difference, the one that comes first in the list is chosen. (With a height of
  0 the ratio is not a finite number, no comparison holds, and the label is the first
  one.)
\<close>

theorem getClosestAspectRatio_nearest:
  assumes "loadImage env imgSrc = Inr (width, height)"
  shows "\<exists>k<length supportedRatios.
           getClosestAspectRatio env imgSrc = Inr ([''1:1'', ''3:4'', ''4:3'', ''9:16'', ''16:9''] ! k)
         \<and> (\<forall>r. js_div width height = Num r \<longrightarrow>
                (\<forall>j<length supportedRatios.
                    abs_diff (val (supportedRatios ! k)) r \<le> abs_diff (val (supportedRatios ! j)) r)
              \<and> (\<forall>j<k. abs_diff (val (supportedRatios ! k)) r
                          < abs_diff (val (supportedRatios ! j)) r))"
proof -
  have label: "id' (supportedRatios ! k) = [''1:1'', ''3:4'', ''4:3'', ''9:16'', ''16:9''] ! k"
    if "k < length supportedRatios" for k
    using that nth_map [of k supportedRatios id'] by (simp only: supported_labels)
  have first: "0 < length supportedRatios"
    by (simp add: supportedRatios_def)
  show ?thesis
  proof (cases "js_div width height")
    case (Num r)
    from closest_Num [of r] obtain k where k: "k < length supportedRatios"
      and c: "closest (Num r) = Inr (supportedRatios ! k)"
      and least: "\<forall>j<length supportedRatios.
          abs_diff (val (supportedRatios ! k)) r \<le> abs_diff (val (supportedRatios ! j)) r"
      and earlier: "\<forall>j<k. abs_diff (val (supportedRatios ! k)) r
                          < abs_diff (val (supportedRatios ! j)) r"
      by blast
    have "getClosestAspectRatio env imgSrc = Inr (id' (supportedRatios ! k))"
      using assms Num c by (simp add: getClosestAspectRatio_def)
    with k least earlier Num label [OF k] show ?thesis
      by (intro exI [of _ k]) simp
  next
    case Infinity
    then have "closest (js_div width height) = Inr (supportedRatios ! 0)"
      by (simp add: closest_not_finite)
    then have "getClosestAspectRatio env imgSrc = Inr (id' (supportedRatios ! 0))"
      using assms by (simp add: getClosestAspectRatio_def)
    with first Infinity label [of 0] show ?thesis
      by (intro exI [of _ 0]) simp
  next
    case NaN
    then have "closest (js_div width height) = Inr (supportedRatios ! 0)"
      by (simp add: closest_not_finite)
    then have "getClosestAspectRatio env imgSrc = Inr (id' (supportedRatios ! 0))"
      using assms by (simp add: getClosestAspectRatio_def)
    with first NaN label [of 0] show ?thesis
      by (intro exI [of _ 0]) simp
  qed
qed

text \<open>
  The theorem at a frame of 21 by 32 pixels. The ratio 0.65625 is half way between 0.75
  and 0.5625, the values of \<open>3:4\<close> and \<open>9:16\<close> at positions 1 and 3; the label is \<open>3:4\<close>.
\<close>

theorem getClosestAspectRatio_nearest_witness:
  "getClosestAspectRatio plain_browser ''frame'' = Inr ''3:4''
   \<and> (\<exists>k<length supportedRatios.
         getClosestAspectRatio plain_browser ''frame''
           = Inr ([''1:1'', ''3:4'', ''4:3'', ''9:16'', ''16:9''] ! k)
       \<and> (\<forall>j<length supportedRatios.
             abs_diff (val (supportedRatios ! k)) (21 / 32) \<le> abs_diff (val (supportedRatios ! j)) (21 / 32))
       \<and> (\<forall>j<k. abs_diff (val (supportedRatios ! k)) (21 / 32)
                   < abs_diff (val (supportedRatios ! j)) (21 / 32)))
   \<and> abs_diff (val (supportedRatios ! 1)) (21 / 32) = abs_diff (val (supportedRatios ! 3)) (21 / 32)"
proof -
  have load: "loadImage plain_browser ''frame'' = Inr (21, 32)"
    by (simp add: plain_browser_def)
  have ratio: "js_div 21 32 = Num (21 / 32)"
    by (simp add: js_div_def round_double_eval)
  have tie: "abs_diff (val (supportedRatios ! 1)) (21 / 32) = abs_diff (val (supportedRatios ! 3)) (21 / 32)"
    by (simp add: supportedRatios_values abs_diff_def)
  from getClosestAspectRatio_nearest [OF load] obtain k where
    "k < length supportedRatios"
    "getClosestAspectRatio plain_browser ''frame''
       = Inr ([''1:1'', ''3:4'', ''4:3'', ''9:16'', ''16:9''] ! k)"
    and every: "\<forall>r. js_div 21 32 = Num r \<longrightarrow>
        (\<forall>j<length supportedRatios.
            abs_diff (val (supportedRatios ! k)) r \<le> abs_diff (val (supportedRatios ! j)) r)
      \<and> (\<forall>j<k. abs_diff (val (supportedRatios ! k)) r < abs_diff (val (supportedRatios ! j)) r)"
    by blast
  moreover from every ratio have
    "(\<forall>j<length supportedRatios.
        abs_diff (val (supportedRatios ! k)) (21 / 32) \<le> abs_diff (val (supportedRatios ! j)) (21 / 32))
      \<and> (\<forall>j<k. abs_diff (val (supportedRatios ! k)) (21 / 32)
                  < abs_diff (val (supportedRatios ! j)) (21 / 32))"
    by blast
  ultimately show ?thesis
    using plain_browser_aspect_ratio [of "''frame''"] tie by blast
qed

section \<open>Properties of upscaling\<close>

lemma settle_upscale_invariant:
  assumes "generatedFrames (app r) = G \<and> alerts (app r) = (if rejected r then A @ [msg] else A)"
    and "msg = ''Upscale failed. Please check your API key quotas or try again.''"
  shows "generatedFrames (app (settle launched outcome (upscale_finally \<circ> upscale_catch) i r)) = G
         \<and> alerts (app (settle launched outcome (upscale_finally \<circ> upscale_catch) i r))
             = (if rejected (settle launched outcome (upscale_finally \<circ> upscale_catch) i r)
                then A @ [msg] else A)"
  using assms
  by (simp add: settle_def frame_completed_def upscale_catch_def upscale_finally_def split: sum.splits)

text \<open>
  Claim C4. Let the sequence be non-empty, let the handler get past the check of the API
  key and find the aspect ratio of the first frame, and let the upscale request for one
  of the frames, at a position \<open>k\<close>, fail and complete. Then the sequence after
  \<open>handleUpscale\<close> is the sequence before it, with no frame replaced, and one alert has
  been shown, with the message of the failed upscale.
\<close>

theorem handleUpscale_any_failure:
  assumes "generatedFrames s \<noteq> []"
    and "ensure_api_key (window_aistudio env) = Inr True"
    and "getClosestAspectRatio env (generatedFrames s ! 0) = Inr aspectRatio"
    and "k < length (generatedFrames s)"
    and "upscaleFrame api (generatedFrames s ! k) aspectRatio = Inl e"
    and "k \<in> set completion"
  shows "generatedFrames (handleUpscale api env completion s) = generatedFrames s
         \<and> alerts (handleUpscale api env completion s)
             = alerts s @ [''Upscale failed. Please check your API key quotas or try again.'']"
proof -
  let ?frames = "generatedFrames s"
  let ?launched = "[0 ..< length ?frames]"
  let ?outcome = "\<lambda>i. upscaleFrame api (?frames ! i) aspectRatio"
  let ?msg = "''Upscale failed. Please check your API key quotas or try again.''"
  let ?s1 = "s \<lparr> isUpscaling := True,
                  status := (status s) \<lparr> completedFrames := 0, totalFrames := length ?frames \<rparr> \<rparr>"
  let ?r = "run_batch ?launched ?outcome (upscale_finally \<circ> upscale_catch) completion ?s1"
  have "k \<in> set ?launched"
    using assms(4) by simp
  with assms(5) have rej: "rejected ?r"
    unfolding run_batch_def
    by (rule fold_settle_failure_rejects) (use assms(6) in simp_all)
  have "generatedFrames (app ?r) = ?frames
        \<and> alerts (app ?r) = (if rejected ?r then alerts s @ [?msg] else alerts s)"
    unfolding run_batch_def
  proof (rule fold_settle_invariant
      [where J = "\<lambda>r::batch_run. generatedFrames (app r) = ?frames
                    \<and> alerts (app r) = (if rejected r then alerts s @ [?msg] else alerts s)"])
    fix i and r :: batch_run
    assume "generatedFrames (app r) = ?frames
            \<and> alerts (app r) = (if rejected r then alerts s @ [?msg] else alerts s)"
    then show "generatedFrames (app (settle ?launched ?outcome (upscale_finally \<circ> upscale_catch) i r))
                 = ?frames
         \<and> alerts (app (settle ?launched ?outcome (upscale_finally \<circ> upscale_catch) i r))
             = (if rejected (settle ?launched ?outcome (upscale_finally \<circ> upscale_catch) i r)
                then alerts s @ [?msg] else alerts s)"
      by (rule settle_upscale_invariant) simp
  qed simp
  with rej have "generatedFrames (app ?r) = ?frames" and "alerts (app ?r) = alerts s @ [?msg]"
    by simp_all
  moreover have "handleUpscale api env completion s = app ?r"
    using assms(1,2,3) rej by (simp add: handleUpscale_def Let_def promise_all_rejected)
  ultimately show ?thesis
    by simp
qed

text \<open>
  The theorem on a sequence of two frames of which the service upscales the first and
  rejects the second, the second request completing first.
\<close>

theorem handleUpscale_any_failure_witness:
  "generatedFrames
     (handleUpscale (\<lambda>req. if req_data req = ''OLD'' then Inl ApiFailure
                            else numbered_service req)
        plain_browser [1, 0] seeded_app)
     = [''data:image/jpeg;base64,AAAA'', ''data:image/png;base64,OLD'']
   \<and> alerts
       (handleUpscale (\<lambda>req. if req_data req = ''OLD'' then Inl ApiFailure
                              else numbered_service req)
          plain_browser [1, 0] seeded_app)
     = [''Upscale failed. Please check your API key quotas or try again.'']"
proof -
  let ?api = "\<lambda>req. if req_data req = ''OLD'' then Inl ApiFailure
                    else numbered_service req"
  have frames: "generatedFrames seeded_app = [''data:image/jpeg;base64,AAAA'', ''data:image/png;base64,OLD'']"
    and no_alerts: "alerts seeded_app = []"
    by (simp_all add: seeded_app_def initial_app_def)
  have 1: "generatedFrames seeded_app \<noteq> []"
    by (simp add: frames)
  have 2: "ensure_api_key (window_aistudio plain_browser) = Inr True"
    by (simp add: plain_browser_def ensure_api_key_def)
  have 3: "getClosestAspectRatio plain_browser (generatedFrames seeded_app ! 0) = Inr ''3:4''"
    by (rule plain_browser_aspect_ratio)
  have 4: "1 < length (generatedFrames seeded_app)"
    by (simp add: frames)
  have "cleanBase64 ''data:image/png;base64,OLD'' = ''OLD''"
    by (simp add: cleanBase64_def drop_prefix_def)
  then have 5: "upscaleFrame ?api (generatedFrames seeded_app ! 1) ''3:4'' = Inl ApiFailure"
    by (simp add: frames upscaleFrame_def upscale_request_def)
  have 6: "1 \<in> set [1, 0 :: nat]"
    by simp
  from handleUpscale_any_failure [OF 1 2 3 4 5 6] show ?thesis
    by (simp add: frames no_alerts)
qed

section \<open>Properties of the archive export\<close>

text \<open>
  A prefix whose subtype consists of word characters, such as \<open>png\<close> or \<open>jpeg\<close>, is
  removed.
\<close>

lemma strip_data_url_prefix_word_subtype:
  assumes "subtype \<noteq> []" and "\<forall>c\<in>set subtype. is_word_char c"
  shows "strip_data_url_prefix (''data:image/'' @ subtype @ '';base64,'' @ payload) = payload"
proof -
  have semicolon: "\<not> is_word_char (CHR '';'')"
    by (simp add: is_word_char_def)
  have "takeWhile is_word_char (subtype @ '';base64,'' @ payload) = subtype"
    using assms(2) semicolon by (simp add: takeWhile_append2)
  moreover have "dropWhile is_word_char (subtype @ '';base64,'' @ payload) = '';base64,'' @ payload"
    using assms(2) semicolon by (simp add: dropWhile_append2)
  moreover have "drop_prefix ''data:image/'' (''data:image/'' @ subtype @ '';base64,'' @ payload)
                   = Some (subtype @ '';base64,'' @ payload)"
    by (simp add: drop_prefix_def)
  moreover have "drop_prefix '';base64,'' ('';base64,'' @ payload) = Some payload"
    by (simp add: drop_prefix_def)
  ultimately show ?thesis
    using assms(1) by (simp add: strip_data_url_prefix_def)
qed

text \<open>
  With a JPEG seed image every prefix is removed and the archive is offered for download.
\<close>

lemma handleDownloadZip_jpeg_seed:
  "downloads (handleDownloadZip plain_browser seeded_app)
     = [(''motion-gen-frames-1700000000000.zip'',
         ZipArchive [(''frame_001.png'', ''AAAA''), (''frame_002.png'', ''OLD'')])]
   \<and> alerts (handleDownloadZip plain_browser seeded_app) = []"
proof -
  have "zip_entries [''data:image/jpeg;base64,AAAA'', ''data:image/png;base64,OLD'']
          = [(''frame_001.png'', ''AAAA''), (''frame_002.png'', ''OLD'')]"
    by code_simp
  moreover have "string_of_int 1700000000000 = ''1700000000000''"
    by (simp add: string_of_int_def string_of_nat.simps digit_char_def)
  ultimately show ?thesis
    by (simp add: handleDownloadZip_def plain_browser_def seeded_app_def initial_app_def
          jszip_generateAsync_def)
qed

text \<open>
  Claim C5. The claim does not hold of the code for a frame whose data URL has a subtype
  with a character outside \<open>[A-Za-z0-9_]\<close>. The seed image is frame 0 of the sequence,
  and for an SVG file it starts with \<open>data:image/svg+xml;base64,\<close>; the expression
  \<open>\w+\<close> does not match \<open>svg+xml\<close>. For the sequence of that SVG seed and ten generated
  PNG frames, the handler gives the archive library eleven entries, \<open>frame_001.png\<close> to
  \<open>frame_011.png\<close>, the last ten with the prefix removed and the first with the whole
  data URL, prefix included, as its content. The library refuses that content, so the
  handler shows the alert of a failed archive and offers no file: the export produces no
  archive with an entry for each frame.
\<close>

theorem handleDownloadZip_svg_seed_fails:
  "zip_entries (generatedFrames svg_app)
     = [(''frame_001.png'', ''data:image/svg+xml;base64,PHN2Zy8+''),
        (''frame_002.png'', ''AAAA''), (''frame_003.png'', ''AAAB''),
        (''frame_004.png'', ''AAAC''), (''frame_005.png'', ''AAAD''),
        (''frame_006.png'', ''AAAE''), (''frame_007.png'', ''AAAF''),
        (''frame_008.png'', ''AAAG''), (''frame_009.png'', ''AAAH''),
        (''frame_010.png'', ''AAAI''), (''frame_011.png'', ''AAAJ'')]
   \<and> downloads (handleDownloadZip plain_browser svg_app) = []
   \<and> alerts (handleDownloadZip plain_browser svg_app) = [''Failed to create ZIP archive.'']
   \<and> isDownloading (handleDownloadZip plain_browser svg_app) = False"
proof -
  have entries: "zip_entries (generatedFrames svg_app)
     = [(''frame_001.png'', ''data:image/svg+xml;base64,PHN2Zy8+''),
        (''frame_002.png'', ''AAAA''), (''frame_003.png'', ''AAAB''),
        (''frame_004.png'', ''AAAC''), (''frame_005.png'', ''AAAD''),
        (''frame_006.png'', ''AAAE''), (''frame_007.png'', ''AAAF''),
        (''frame_008.png'', ''AAAG''), (''frame_009.png'', ''AAAH''),
        (''frame_010.png'', ''AAAI''), (''frame_011.png'', ''AAAJ'')]"
    by code_simp
  have frames: "generatedFrames svg_app \<noteq> []" and quiet: "alerts svg_app = []"
    and none: "downloads svg_app = []"
    by (simp_all add: svg_app_def initial_app_def)
  have "generateAsync plain_browser (zip_entries (generatedFrames svg_app)) = Some ArchiveFailure"
    by (simp add: entries plain_browser_def jszip_generateAsync_def)
  with frames quiet none have
    "downloads (handleDownloadZip plain_browser svg_app) = []
     \<and> alerts (handleDownloadZip plain_browser svg_app) = [''Failed to create ZIP archive.'']
     \<and> isDownloading (handleDownloadZip plain_browser svg_app) = False"
    by (simp add: handleDownloadZip_def Let_def)
  with entries show ?thesis
    by simp
qed

section \<open>Properties of playback\<close>

lemma js_rem_range: "0 \<le> a \<Longrightarrow> 0 < b \<Longrightarrow> 0 \<le> js_rem a b \<and> js_rem a b < b"
  by (cases "a = 0") (simp_all add: js_rem_def)

lemma js_rem_self: "0 < b \<Longrightarrow> js_rem b b = 0"
  by (simp add: js_rem_def)

lemma js_rem_less: "0 \<le> a \<Longrightarrow> a < b \<Longrightarrow> js_rem a b = a"
  by (cases "a = 0") (simp_all add: js_rem_def)

text \<open>Every step of the player keeps the index inside the sequence.\<close>

lemma player_step_in_range:
  assumes "frames \<noteq> []" and "0 \<le> currentIndex s" and "currentIndex s < int (length frames)"
  shows "0 \<le> currentIndex (player_step frames s a)
         \<and> currentIndex (player_step frames s a) < int (length frames)"
proof -
  define n where "n = int (length frames)"
  have len: "0 < n"
    using assms(1) by (simp add: n_def)
  have "0 \<le> currentIndex s + 1" and "0 \<le> currentIndex s - 1 + n"
    using len assms(2) by linarith+
  with len have next_ok: "0 \<le> js_rem (currentIndex s + 1) n \<and> js_rem (currentIndex s + 1) n < n"
    and prev_ok: "0 \<le> js_rem (currentIndex s - 1 + n) n \<and> js_rem (currentIndex s - 1 + n) n < n"
    by (simp_all only: js_rem_range)
  show ?thesis
  proof (cases a)
    case Next
    with next_ok show ?thesis
      by (simp add: apply_updates_def handleNext_def n_def)
  next
    case Prev
    with prev_ok show ?thesis
      by (simp add: apply_updates_def handlePrev_def n_def)
  next
    case (Thumbnail idx)
    with assms(2,3) show ?thesis
      by (simp add: apply_updates_def handleThumbnailClick_def)
  next
    case PlayPause
    with assms(2,3) show ?thesis
      by (simp add: apply_updates_def handlePlayPause_def)
  next
    case Reset
    with len show ?thesis
      by (simp add: apply_updates_def handleReset_def n_def)
  next
    case Tick
    with next_ok assms(2,3) show ?thesis
      by (simp add: apply_updates_def interval_tick_def n_def)
  qed
qed

lemma player_run_in_range:
  assumes "frames \<noteq> []"
  shows "0 \<le> currentIndex (player_run frames acts)
         \<and> currentIndex (player_run frames acts) < int (length frames)"
proof (induction acts rule: rev_induct)
  case Nil
  from assms show ?case
    by (simp add: player_run_def initial_player_def)
next
  case (snoc a acts)
  then show ?case
    using player_step_in_range [OF assms, of "player_run frames acts" a]
    by (simp add: player_run_def)
qed

text \<open>
  Claim C6. For a non-empty sequence of length \<open>L\<close>, the index of the player is between 0
  and \<open>L - 1\<close> after every list of actions (next, previous, a click on a thumbnail of the
  strip, play or pause, reset, a tick of the interval); \<open>handleNext\<close> at index \<open>L - 1\<close>
  gives index 0, and \<open>handlePrev\<close> at index 0 gives index \<open>L - 1\<close>.
\<close>

theorem player_index_wraps:
  assumes "frames \<noteq> []"
  shows "0 \<le> currentIndex (player_run frames acts)
         \<and> currentIndex (player_run frames acts) \<le> int (length frames) - 1
         \<and> (\<forall>s. currentIndex s = int (length frames) - 1 \<longrightarrow>
                currentIndex (apply_updates (handleNext frames) s) = 0)
         \<and> (\<forall>s. currentIndex s = 0 \<longrightarrow>
                currentIndex (apply_updates (handlePrev frames) s) = int (length frames) - 1)"
proof -
  define n where "n = int (length frames)"
  have len: "0 < n"
    using assms by (simp add: n_def)
  have "js_rem (n - 1 + 1) n = 0"
    using len by (simp add: js_rem_self)
  moreover have "js_rem (0 - 1 + n) n = n - 1"
  proof -
    have "js_rem (n - 1) n = n - 1"
      using len by (intro js_rem_less) simp_all
    then show ?thesis
      by simp
  qed
  moreover have "0 \<le> currentIndex (player_run frames acts)
                 \<and> currentIndex (player_run frames acts) < n"
    unfolding n_def using assms by (rule player_run_in_range)
  ultimately show ?thesis
    by (simp add: apply_updates_def handleNext_def handlePrev_def n_def)
qed

text \<open>The theorem on a sequence of three frames.\<close>

theorem player_index_wraps_witness:
  "0 \<le> currentIndex (player_run [''a'', ''b'', ''c''] [Next, PlayPause, Tick, Tick, Prev, Thumbnail 2, Next])
   \<and> currentIndex (player_run [''a'', ''b'', ''c''] [Next, PlayPause, Tick, Tick, Prev, Thumbnail 2, Next]) \<le> 2
   \<and> currentIndex (apply_updates (handleNext [''a'', ''b'', ''c''])
                     \<lparr> currentIndex = 2, isPlaying = True \<rparr>) = 0
   \<and> currentIndex (apply_updates (handlePrev [''a'', ''b'', ''c''])
                     \<lparr> currentIndex = 0, isPlaying = True \<rparr>) = 2"
proof -
  let ?frames = "[''a'', ''b'', ''c'']"
  have "?frames \<noteq> []"
    by simp
  note wraps = player_index_wraps [OF this, of "[Next, PlayPause, Tick, Tick, Prev, Thumbnail 2, Next]"]
  from wraps have
    "0 \<le> currentIndex (player_run ?frames [Next, PlayPause, Tick, Tick, Prev, Thumbnail 2, Next])
     \<and> currentIndex (player_run ?frames [Next, PlayPause, Tick, Tick, Prev, Thumbnail 2, Next]) \<le> 2"
    by simp
  moreover from wraps have
    "\<forall>s. currentIndex s = 2 \<longrightarrow> currentIndex (apply_updates (handleNext ?frames) s) = 0"
    by simp
  then have "currentIndex (apply_updates (handleNext ?frames) \<lparr> currentIndex = 2, isPlaying = True \<rparr>) = 0"
    by simp
  moreover from wraps have
    "\<forall>s. currentIndex s = 0 \<longrightarrow> currentIndex (apply_updates (handlePrev ?frames) s) = 2"
    by simp
  then have "currentIndex (apply_updates (handlePrev ?frames) \<lparr> currentIndex = 0, isPlaying = True \<rparr>) = 2"
    by simp
  ultimately show ?thesis
    by blast
qed

text \<open>
  Claim C7. The first update of each of \<open>handleNext\<close>, \<open>handlePrev\<close> and
  \<open>handleThumbnailClick\<close> sets the play state to false, whatever the state and the
  arguments are, and the play state after each handler is false; so each of the three
  actions, taken while playing, leaves the player paused.
\<close>

theorem navigation_pauses_first:
  "hd (handleNext frames) = SetIsPlaying False
   \<and> hd (handlePrev frames) = SetIsPlaying False
   \<and> hd (handleThumbnailClick index) = SetIsPlaying False
   \<and> isPlaying (apply_updates (handleNext frames) s) = False
   \<and> isPlaying (apply_updates (handlePrev frames) s) = False
   \<and> isPlaying (apply_updates (handleThumbnailClick index) s) = False
   \<and> isPlaying (player_step frames (s \<lparr> isPlaying := True \<rparr>) Next) = False
   \<and> isPlaying (player_step frames (s \<lparr> isPlaying := True \<rparr>) Prev) = False
   \<and> isPlaying (player_step (frame # frames) (s \<lparr> isPlaying := True \<rparr>) (Thumbnail 0)) = False"
  by (simp add: handleNext_def handlePrev_def handleThumbnailClick_def apply_updates_def)

section \<open>Operations without their input\<close>

text \<open>
  Claim C10. \<open>handleGenerate\<close> in a state without a seed image (none, or the empty
  string) returns the state as it is, and so do \<open>handleUpscale\<close>, \<open>handleDownloadVideo\<close>
  and \<open>handleDownloadZip\<close> in a state whose sequence is empty: the sequence, the status,
  the flags, the alerts and the downloads are unchanged.
\<close>

theorem guarded_no_ops:
  "(originalImage s = None \<or> originalImage s = Some [] \<longrightarrow> handleGenerate api completion s = s)
   \<and> (generatedFrames s = [] \<longrightarrow>
        handleUpscale api env completion s = s
      \<and> handleDownloadVideo env s = s
      \<and> handleDownloadZip env s = s)"
  by (auto simp: handleGenerate_def handleUpscale_def handleDownloadVideo_def handleDownloadZip_def)

text \<open>The theorem in the initial state, which has neither a seed image nor a sequence.\<close>

theorem guarded_no_ops_witness:
  "originalImage initial_app = None \<and> generatedFrames initial_app = []
   \<and> handleGenerate numbered_service [1 ..< 11] initial_app = initial_app
   \<and> handleUpscale numbered_service plain_browser [] initial_app = initial_app
   \<and> handleDownloadVideo plain_browser initial_app = initial_app
   \<and> handleDownloadZip plain_browser initial_app = initial_app"
proof -
  have "originalImage initial_app = None" and "generatedFrames initial_app = []"
    by (simp_all add: initial_app_def)
  with guarded_no_ops [of initial_app numbered_service "[1 ..< 11]" plain_browser]
    guarded_no_ops [of initial_app numbered_service "[]" plain_browser]
  show ?thesis
    by simp
qed

section \<open>Supplying a new seed image\<close>

text \<open>
  Claim C8. Whatever the state was (any generated sequence, any count of completed frames,
  any recorded error), \<open>handleImageSelect\<close> sets the count of completed frames to 0, makes
  the generated sequence empty and leaves no error in the status; the new image is the
  seed.
\<close>

theorem handleImageSelect_resets:
  "completedFrames (status (handleImageSelect img s)) = 0
   \<and> generatedFrames (handleImageSelect img s) = []
   \<and> error (status (handleImageSelect img s)) = None
   \<and> originalImage (handleImageSelect img s) = Some img"
  by (simp add: handleImageSelect_def)

end
